theory Spec2Isabelle
  imports Main
begin

section \<open>The character source: \<open>std::fstream\<close> as the scanner uses it\<close>

text \<open>
  The scanner reads its file through \<open>get()\<close>, \<open>peek()\<close> and \<open>eof()\<close> only.
  The stream is the list of bytes not yet read together with the \<open>eofbit\<close>.
  \<open>get()\<close> returns the next byte as a non-negative \<open>int\<close> and removes it; at the end
  of the file it returns \<open>-1\<close> and sets \<open>eofbit\<close> (and \<open>failbit\<close>). \<open>peek()\<close> returns
  the next byte without removing it; at the end of the file it returns \<open>-1\<close> and sets
  \<open>eofbit\<close>. Once \<open>eofbit\<close> is set the stream is no longer \<open>good()\<close>, and both calls
  return \<open>-1\<close> without reading. \<open>failbit\<close> is only ever set on a stream whose
  \<open>eofbit\<close> is set, and nothing in the program reads it, so it is not part of the state.
\<close>

record fstream =
  chars :: "char list"
  eofbit :: bool

definition EOF :: int where
  "EOF = - 1"

definition fresh :: "char list \<Rightarrow> fstream" where
  "fresh cs = \<lparr>chars = cs, eofbit = False\<rparr>"

definition eof :: "fstream \<Rightarrow> bool" where
  "eof stream = eofbit stream"

definition get :: "fstream \<Rightarrow> int \<times> fstream" where
  "get stream =
     (if eofbit stream then (EOF, stream)
      else case chars stream of
             [] \<Rightarrow> (EOF, stream\<lparr>eofbit := True\<rparr>)
           | c # cs \<Rightarrow> (of_char c, stream\<lparr>chars := cs\<rparr>))"

definition peek :: "fstream \<Rightarrow> int \<times> fstream" where
  "peek stream =
     (if eofbit stream then (EOF, stream)
      else case chars stream of
             [] \<Rightarrow> (EOF, stream\<lparr>eofbit := True\<rparr>)
           | c # cs \<Rightarrow> (of_char c, stream))"

text \<open>
  \<open>std::string::operator+=(char)\<close> applied to an \<open>int\<close>: the value is converted to
  \<open>char\<close>, that is, taken modulo 256 (so \<open>-1\<close> becomes the byte \<open>0xFF\<close>).
\<close>

definition to_char :: "int \<Rightarrow> char" where
  "to_char i = char_of i"

subsection \<open>The \<open><cctype>\<close> classifiers\<close>

text \<open>
  Modelled from the spec: the classifiers of \<open><cctype>\<close>, which belong to the C
  library and not to this repository. The specification names the categories
  (alphabetic, digit, whitespace, punctuation); the program never calls \<open>setlocale\<close>,
  so the members of each are those of the \<open>"C"\<close> locale, on the values \<open>get()\<close> and
  \<open>peek()\<close> return (\<open>-1\<close> and \<open>0..255\<close>).
\<close>

definition isalpha :: "int \<Rightarrow> bool" where
  "isalpha c = ((65 \<le> c \<and> c \<le> 90) \<or> (97 \<le> c \<and> c \<le> 122))"

definition isdigit :: "int \<Rightarrow> bool" where
  "isdigit c = (48 \<le> c \<and> c \<le> 57)"

definition isxdigit :: "int \<Rightarrow> bool" where
  "isxdigit c = ((48 \<le> c \<and> c \<le> 57) \<or> (65 \<le> c \<and> c \<le> 70) \<or> (97 \<le> c \<and> c \<le> 102))"

definition isspace :: "int \<Rightarrow> bool" where
  "isspace c = (c = 32 \<or> (9 \<le> c \<and> c \<le> 13))"

definition ispunct :: "int \<Rightarrow> bool" where
  "ispunct c = ((33 \<le> c \<and> c \<le> 47) \<or> (58 \<le> c \<and> c \<le> 64) \<or>
                (91 \<le> c \<and> c \<le> 96) \<or> (123 \<le> c \<and> c \<le> 126))"

section \<open>Tokens\<close>

text \<open>
  One constructor per class derived from \<open>base_token\<close>, carrying the private members of
  the class. A token object is mutable: \<open>parse_token\<close> overwrites its members.
\<close>

datatype token =
    symbol_token string
  | integer_token string
  | literal_token string
  | constant_token string
  | punctuation_token string
  | whitespace_token
  | eol_token
  | indent_token int
  | dedent_token int
  | eof_token
  | invalid_token int

text \<open>
  The two messages \<open>literal_token::parse_token\<close> prints before it calls \<open>exit(0)\<close>:
  \<open>error: EOL encountered before closing literal quotes\<close> and
  \<open>error: EOF encountered before closing literal quotes\<close>.
\<close>

datatype message =
    EOL_before_closing_literal_quotes
  | EOF_before_closing_literal_quotes

section \<open>The sub-scanners\<close>

function symbol_loop :: "fstream \<Rightarrow> string \<Rightarrow> string \<times> int \<times> fstream" where
  "symbol_loop stream symbol =
     (case get stream of (input_char, stream) \<Rightarrow>
        if isalpha input_char \<or> isdigit input_char \<or> input_char = 95
        then symbol_loop stream (symbol @ [to_char input_char])
        else (symbol, input_char, stream))"
  by pat_completeness auto
termination
  by (relation "measure (\<lambda>(stream, symbol). length (chars stream))")
     (auto simp: get_def isalpha_def isdigit_def EOF_def split: if_splits list.splits)

declare symbol_loop.simps [simp del]

text \<open>\<open>integer_token::parse_token\<close>: the hexadecimal loop and the decimal loop.\<close>

function hex_loop :: "fstream \<Rightarrow> string \<Rightarrow> string \<times> int \<times> fstream" where
  "hex_loop stream integer_string =
     (case get stream of (input_char, stream) \<Rightarrow>
        if isxdigit input_char
        then hex_loop stream (integer_string @ [to_char input_char])
        else (integer_string, input_char, stream))"
  by pat_completeness auto
termination
  by (relation "measure (\<lambda>(stream, integer_string). length (chars stream))")
     (auto simp: get_def isxdigit_def EOF_def split: if_splits list.splits)

declare hex_loop.simps [simp del]

function dec_loop :: "fstream \<Rightarrow> string \<Rightarrow> string \<times> int \<times> fstream" where
  "dec_loop stream integer_string =
     (case get stream of (input_char, stream) \<Rightarrow>
        if isdigit input_char
        then dec_loop stream (integer_string @ [to_char input_char])
        else (integer_string, input_char, stream))"
  by pat_completeness auto
termination
  by (relation "measure (\<lambda>(stream, integer_string). length (chars stream))")
     (auto simp: get_def isdigit_def EOF_def split: if_splits list.splits)

declare dec_loop.simps [simp del]

definition integer_parse_token :: "fstream \<Rightarrow> int \<Rightarrow> string \<times> int \<times> fstream" where
  "integer_parse_token stream input_char =
     (let integer_string = [to_char input_char] in
      if input_char = 48 then
        (case peek stream of (input_char, stream) \<Rightarrow>
           if input_char = 88 \<or> input_char = 120 then
             (let integer_string = integer_string @ [to_char input_char] in
              case get stream of (input_char, stream) \<Rightarrow> hex_loop stream integer_string)
           else dec_loop stream integer_string)
      else dec_loop stream integer_string)"

text \<open>
  \<open>literal_token::parse_token\<close>. \<open>Inl\<close> is a call of \<open>exit(0)\<close> after the message;
  \<open>Inr\<close> is the return of the character after the closing quote.
\<close>

function literal_loop :: "fstream \<Rightarrow> string \<Rightarrow> message + string \<times> int \<times> fstream" where
  "literal_loop stream literal_string =
     (case get stream of (input_char, stream) \<Rightarrow>
        if input_char = 92 then
          (case peek stream of (input_char, stream) \<Rightarrow>
             if input_char = 34 \<or> input_char = 92 then
               (let literal_string = literal_string @ [CHR 0x5C] in
                case get stream of (input_char, stream) \<Rightarrow>
                  literal_loop stream (literal_string @ [to_char input_char]))
             else if input_char = 10 then Inl EOL_before_closing_literal_quotes
             else if input_char = - 1 then Inl EOF_before_closing_literal_quotes
             else literal_loop stream (literal_string @ [to_char input_char]))
        else if input_char \<noteq> 34 \<and> input_char \<noteq> - 1 then
          literal_loop stream (literal_string @ [to_char input_char])
        else if input_char = - 1 then Inl EOF_before_closing_literal_quotes
        else (case get stream of (input_char, stream) \<Rightarrow>
                Inr (literal_string, input_char, stream)))"
  by pat_completeness auto
termination
  by (relation "measure (\<lambda>(stream, literal_string). length (chars stream))")
     (auto simp: get_def peek_def EOF_def split: if_splits list.splits)

declare literal_loop.simps [simp del]

definition literal_parse_token :: "fstream \<Rightarrow> int \<Rightarrow> message + string \<times> int \<times> fstream" where
  "literal_parse_token stream input_char = literal_loop stream []"

text \<open>
  \<open>constant_token::parse_token\<close>. The loop has no exit but the closing quote, so it
  need not return: \<open>None\<close> is a loop that runs forever. Strings are unbounded here;
  the memory the growing \<open>constant_string\<close> takes is not modelled.
\<close>

partial_function (option) constant_loop ::
    "fstream \<Rightarrow> string \<Rightarrow> (string \<times> int \<times> fstream) option" where
  "constant_loop stream constant_string =
     (case get stream of (input_char, stream) \<Rightarrow>
        if input_char = 92 then
          (case peek stream of (input_char, stream) \<Rightarrow>
             if input_char = 39 \<or> input_char = 92 then
               (let constant_string = constant_string @ [CHR 0x5C] in
                case get stream of (input_char, stream) \<Rightarrow>
                  constant_loop stream (constant_string @ [to_char input_char]))
             else constant_loop stream (constant_string @ [to_char input_char]))
        else if input_char \<noteq> 39 then
          constant_loop stream (constant_string @ [to_char input_char])
        else (case get stream of (input_char, stream) \<Rightarrow>
                Some (constant_string, input_char, stream)))"

definition constant_parse_token ::
    "fstream \<Rightarrow> int \<Rightarrow> (string \<times> int \<times> fstream) option" where
  "constant_parse_token stream input_char = constant_loop stream []"

text \<open>
  \<open>punctuation_token::parse_token\<close>. Every case of the \<open>switch\<close> is built from one
  step: peek, and when the peeked character is one of those looked for, read it and
  append it. The step returns \<open>input_char\<close> as the code leaves it: the character read
  when there was one, the peeked character otherwise.
\<close>

definition peek_append :: "int list \<Rightarrow> fstream \<Rightarrow> string \<Rightarrow> int \<times> fstream \<times> string" where
  "peek_append looked_for stream punctuation_string =
     (case peek stream of (input_char, stream) \<Rightarrow>
        if input_char \<in> set looked_for then
          (case get stream of (input_char, stream) \<Rightarrow>
             (input_char, stream, punctuation_string @ [to_char input_char]))
        else (input_char, stream, punctuation_string))"

definition get_append :: "fstream \<Rightarrow> string \<Rightarrow> fstream \<times> string" where
  "get_append stream punctuation_string =
     (case get stream of (input_char, stream) \<Rightarrow>
        (stream, punctuation_string @ [to_char input_char]))"

definition punctuation_switch :: "fstream \<Rightarrow> int \<Rightarrow> string \<Rightarrow> fstream \<times> string" where
  "punctuation_switch stream input_char punctuation_string =
     (if input_char = 33 then \<comment> \<open>\<open>!\<close>: either \<open>!\<close> or \<open>!=\<close>\<close>
        (case peek_append [61] stream punctuation_string of (input_char, r) \<Rightarrow> r)
      else if input_char = 35 then \<comment> \<open>\<open>#\<close>: either \<open>#\<close> or \<open>##\<close>\<close>
        (case peek_append [35] stream punctuation_string of (input_char, r) \<Rightarrow> r)
      else if input_char = 37 then \<comment> \<open>\<open>%\<close>: either \<open>%\<close> or \<open>%=\<close>\<close>
        (case peek_append [61] stream punctuation_string of (input_char, r) \<Rightarrow> r)
      else if input_char = 38 then \<comment> \<open>\<open>&\<close>: either \<open>&\<close>, \<open>&&\<close> or \<open>&=\<close>\<close>
        (case peek_append [38, 61] stream punctuation_string of (input_char, r) \<Rightarrow> r)
      else if input_char = 42 then \<comment> \<open>\<open>*\<close>: either \<open>*\<close> or \<open>*=\<close>\<close>
        (case peek_append [61] stream punctuation_string of (input_char, r) \<Rightarrow> r)
      else if input_char = 43 then \<comment> \<open>\<open>+\<close>: either \<open>+\<close>, \<open>++\<close> or \<open>+=\<close>\<close>
        (case peek_append [43, 61] stream punctuation_string of (input_char, r) \<Rightarrow> r)
      else if input_char = 45 then \<comment> \<open>\<open>-\<close>: either \<open>-\<close>, \<open>--\<close>, \<open>-=\<close>, \<open>->\<close> or \<open>->*\<close>\<close>
        (case peek_append [45, 61] stream punctuation_string of
           (input_char, stream, punctuation_string) \<Rightarrow>
             if input_char = 62 then
               (case get_append stream punctuation_string of
                  (stream, punctuation_string) \<Rightarrow>
                    (case peek_append [42] stream punctuation_string of (input_char, r) \<Rightarrow> r))
             else (stream, punctuation_string))
      else if input_char = 46 then \<comment> \<open>\<open>.\<close>: either \<open>.\<close>, \<open>..\<close> or \<open>...\<close>\<close>
        (case peek_append [46] stream punctuation_string of
           (input_char, stream, punctuation_string) \<Rightarrow>
             if input_char = 46 then
               (case peek_append [46] stream punctuation_string of (input_char, r) \<Rightarrow> r)
             else (stream, punctuation_string))
      else if input_char = 47 then \<comment> \<open>\<open>/\<close>: either \<open>/\<close> or \<open>/=\<close>\<close>
        (case peek_append [61] stream punctuation_string of (input_char, r) \<Rightarrow> r)
      else if input_char = 58 then \<comment> \<open>\<open>:\<close>: either \<open>:\<close> or \<open>::\<close>\<close>
        (case peek_append [58] stream punctuation_string of (input_char, r) \<Rightarrow> r)
      else if input_char = 60 then \<comment> \<open>\<open><\<close>: either \<open><\<close>, \<open><=\<close>, \<open><<\<close> or \<open><<=\<close>\<close>
        (case peek_append [61] stream punctuation_string of
           (input_char, stream, punctuation_string) \<Rightarrow>
             if input_char = 61 then (stream, punctuation_string)
             else if input_char = 60 then
               (case get_append stream punctuation_string of
                  (stream, punctuation_string) \<Rightarrow>
                    (case peek_append [61] stream punctuation_string of (input_char, r) \<Rightarrow> r))
             else (stream, punctuation_string))
      else if input_char = 61 then \<comment> \<open>\<open>=\<close>: either \<open>=\<close> or \<open>==\<close>\<close>
        (case peek_append [61] stream punctuation_string of (input_char, r) \<Rightarrow> r)
      else if input_char = 62 then \<comment> \<open>\<open>>\<close>: either \<open>>\<close>, \<open>>=\<close>, \<open>>>\<close> or \<open>>>=\<close>\<close>
        (case peek_append [61] stream punctuation_string of
           (input_char, stream, punctuation_string) \<Rightarrow>
             if input_char = 61 then (stream, punctuation_string)
             else if input_char = 62 then
               (case get_append stream punctuation_string of
                  (stream, punctuation_string) \<Rightarrow>
                    (case peek_append [61] stream punctuation_string of (input_char, r) \<Rightarrow> r))
             else (stream, punctuation_string))
      else if input_char = 124 then \<comment> \<open>\<open>|\<close>: either \<open>|\<close>, \<open>|=\<close> or \<open>||\<close>\<close>
        (case peek_append [124, 61] stream punctuation_string of (input_char, r) \<Rightarrow> r)
      else (stream, punctuation_string))"

definition punctuation_parse_token :: "fstream \<Rightarrow> int \<Rightarrow> string \<times> int \<times> fstream" where
  "punctuation_parse_token stream input_char =
     (case punctuation_switch stream input_char [to_char input_char] of
        (stream, punctuation_string) \<Rightarrow>
          (case get stream of (input_char, stream) \<Rightarrow>
             (punctuation_string, input_char, stream)))"

text \<open>\<open>whitespace_token::parse_token\<close>.\<close>

function whitespace_loop :: "fstream \<Rightarrow> int \<times> fstream" where
  "whitespace_loop stream =
     (case get stream of (input_char, stream) \<Rightarrow>
        if input_char = 32 \<or> input_char = 9 \<or> input_char = 11 \<or> input_char = 13
        then whitespace_loop stream
        else (input_char, stream))"
  by pat_completeness auto
termination
  by (relation "measure (\<lambda>stream. length (chars stream))")
     (auto simp: get_def EOF_def split: if_splits list.splits)

declare whitespace_loop.simps [simp del]

text \<open>
  The virtual call \<open>token->parse_token(stream, input_char)\<close>: the class of the object
  selects the body, which overwrites the members of the object and returns the next
  input character. The result is \<open>None\<close> when the call does not return,
  \<open>Some (Inl m)\<close> when it ends the process by \<open>exit(0)\<close> after printing \<open>m\<close>, and
  otherwise the object as the call leaves it, the character returned and the stream.
\<close>

definition parse_token ::
    "token \<Rightarrow> fstream \<Rightarrow> int \<Rightarrow> (message + token \<times> int \<times> fstream) option" where
  "parse_token this stream input_char =
     (case this of
        symbol_token _ \<Rightarrow>
          (case symbol_loop stream [to_char input_char] of
             (symbol, r) \<Rightarrow> Some (Inr (symbol_token symbol, r)))
      | integer_token _ \<Rightarrow>
          (case integer_parse_token stream input_char of
             (integer_string, r) \<Rightarrow> Some (Inr (integer_token integer_string, r)))
      | literal_token _ \<Rightarrow>
          (case literal_parse_token stream input_char of
             Inl m \<Rightarrow> Some (Inl m)
           | Inr (literal_string, r) \<Rightarrow> Some (Inr (literal_token literal_string, r)))
      | constant_token _ \<Rightarrow>
          (case constant_parse_token stream input_char of
             None \<Rightarrow> None
           | Some (constant_string, r) \<Rightarrow> Some (Inr (constant_token constant_string, r)))
      | punctuation_token _ \<Rightarrow>
          (case punctuation_parse_token stream input_char of
             (punctuation_string, r) \<Rightarrow> Some (Inr (punctuation_token punctuation_string, r)))
      | whitespace_token \<Rightarrow> Some (Inr (whitespace_token, whitespace_loop stream))
      | eol_token \<Rightarrow> Some (Inr (eol_token, get stream))
      | indent_token indent_level \<Rightarrow> Some (Inr (indent_token indent_level, get stream))
      | dedent_token dedent_level \<Rightarrow> Some (Inr (dedent_token dedent_level, get stream))
      | eof_token \<Rightarrow> Some (Inr (eof_token, 0, stream))
      | invalid_token _ \<Rightarrow>
          (case get stream of r \<Rightarrow> Some (Inr (invalid_token input_char, r))))"

section \<open>The driver: \<open>token_parser::parse_tokens\<close>\<close>

text \<open>
  The members of \<open>token_parser\<close> and the locals of \<open>parse_tokens\<close> that live across
  iterations. Token objects are allocated with \<open>new\<close> and \<open>token_list\<close> holds pointers
  to them, so the objects are kept in a store: \<open>objects\<close> lists them in allocation
  order, and a pointer is an index into it. \<open>token\<close> is the local pointer variable;
  \<open>None\<close> is the null pointer. \<open>new(nothrow)\<close> is taken to succeed.
  \<open>current_indent\<close> and the count of spaces are \<open>int\<close> in the source; they are
  unbounded here (they count characters of the file).
\<close>

record parse_state =
  source_stream :: fstream
  objects :: "token list"
  token_list :: "nat list"
  current_indent :: int
  token :: "nat option"

definition new :: "token \<Rightarrow> parse_state \<Rightarrow> parse_state" where
  "new object st =
     st\<lparr>objects := objects st @ [object], token := Some (length (objects st))\<rparr>"

text \<open>The loop of the comment branch.\<close>

function comment_loop :: "fstream \<Rightarrow> int \<Rightarrow> fstream" where
  "comment_loop stream peek_character =
     (if peek_character \<noteq> 10 \<and> \<not> eof stream
      then (case get stream of (peek_character, stream) \<Rightarrow> comment_loop stream peek_character)
      else stream)"
  by pat_completeness auto
termination
  by (relation "measure (\<lambda>(stream, peek_character).
                            length (chars stream) + (if eofbit stream then 0 else 1))")
     (auto simp: get_def eof_def split: if_splits list.splits)

declare comment_loop.simps [simp del]

text \<open>The loop of the end-of-line branch, which counts \<open>spaces\<close>.\<close>

function spaces_loop :: "fstream \<Rightarrow> int \<Rightarrow> int \<Rightarrow> fstream \<times> int" where
  "spaces_loop stream g spaces =
     (if g \<noteq> 10 \<and> \<not> eof stream then
        (case peek stream of (p, stream) \<Rightarrow>
           if isspace p
           then (case get stream of (g, stream) \<Rightarrow> spaces_loop stream g (spaces + 1))
           else (stream, spaces))
      else (stream, spaces))"
  by pat_completeness auto
termination
  by (relation "measure (\<lambda>(stream, g, spaces). length (chars stream))")
     (auto simp: get_def peek_def eof_def isspace_def EOF_def split: if_splits list.splits)

declare spaces_loop.simps [simp del]

definition count_spaces :: "fstream \<Rightarrow> fstream \<times> int" where
  "count_spaces stream =
     (let spaces = 0 in
      case peek stream of (p, stream) \<Rightarrow>
        if isspace p
        then (case get stream of (g, stream) \<Rightarrow> spaces_loop stream g spaces)
        else (stream, spaces))"

text \<open>
  The single-shot \<open>do ... while (false)\<close>: the leading character selects the class of
  the token to allocate. When no test succeeds the block ends without an assignment,
  and \<open>token\<close> keeps the value it had.
\<close>

definition select_token :: "parse_state \<Rightarrow> int \<Rightarrow> parse_state" where
  "select_token st input_char =
     (if input_char = 35 then
        (case peek (source_stream st) of (peek_character, stream) \<Rightarrow>
           new eol_token (st\<lparr>source_stream := comment_loop stream peek_character\<rparr>))
      else if isalpha input_char \<or> input_char = 95 then new (symbol_token []) st
      else if input_char = 10 then
        (case count_spaces (source_stream st) of (stream, spaces) \<Rightarrow>
           if spaces > current_indent st then
             new (indent_token spaces) (st\<lparr>source_stream := stream, current_indent := spaces\<rparr>)
           else if spaces < current_indent st then
             new (dedent_token spaces) (st\<lparr>source_stream := stream, current_indent := spaces\<rparr>)
           else new eol_token (st\<lparr>source_stream := stream\<rparr>))
      else if isspace input_char then new whitespace_token st
      else if input_char = 34 then new (literal_token []) st
      else if input_char = 39 then new (constant_token []) st
      else if isdigit input_char then new (integer_token []) st
      else if ispunct input_char then new (punctuation_token []) st
      else st)"

text \<open>
  How \<open>parse_tokens\<close> can end other than by \<open>return true\<close>: \<open>exit(0)\<close> inside
  \<open>literal_token::parse_token\<close>, \<open>return false\<close> on a null \<open>token\<close>, or a virtual call
  through a \<open>token\<close> that points to no object, which has no defined behaviour.
\<close>

datatype stop =
    Exit message
  | Return_false parse_state
  | Wild_pointer

text \<open>
  The rest of the body of the inner loop: the null test, the virtual call on the
  object \<open>token\<close> points to, and \<open>push_back\<close>.
\<close>

definition loop_body :: "parse_state \<Rightarrow> int \<Rightarrow> (stop + parse_state \<times> int) option" where
  "loop_body st input_char =
     (let st = select_token st input_char in
      case token st of
        None \<Rightarrow> Some (Inl (Return_false st))
      | Some p \<Rightarrow>
          if p < length (objects st) then
            (case parse_token (objects st ! p) (source_stream st) input_char of
               None \<Rightarrow> None
             | Some (Inl m) \<Rightarrow> Some (Inl (Exit m))
             | Some (Inr (object, input_char, stream)) \<Rightarrow>
                 Some (Inr (st\<lparr>source_stream := stream,
                                objects := (objects st)[p := object],
                                token_list := token_list st @ [p]\<rparr>, input_char)))
          else Some (Inl Wild_pointer))"

partial_function (option) inner_loop :: "parse_state \<Rightarrow> int \<Rightarrow> (stop + parse_state) option" where
  "inner_loop st input_char =
     (if \<not> eof (source_stream st) then
        (case loop_body st input_char of
           None \<Rightarrow> None
         | Some (Inl e) \<Rightarrow> Some (Inl e)
         | Some (Inr (st, input_char)) \<Rightarrow> inner_loop st input_char)
      else Some (Inr st))"

partial_function (option) outer_loop :: "parse_state \<Rightarrow> (stop + parse_state) option" where
  "outer_loop st =
     (if \<not> eof (source_stream st) then
        (case get (source_stream st) of (input_char, stream) \<Rightarrow>
           (case inner_loop (st\<lparr>source_stream := stream\<rparr>) input_char of
              None \<Rightarrow> None
            | Some (Inl e) \<Rightarrow> Some (Inl e)
            | Some (Inr st) \<Rightarrow> outer_loop st))
      else Some (Inr st))"

text \<open>
  \<open>parse_tokens\<close> on a parser constructed over \<open>stream\<close>. The local \<open>token\<close> is
  declared without an initialiser, so the value it starts with is not determined by
  the program: it is the parameter \<open>token0\<close>. \<open>Some (Inr st)\<close> is \<open>return true\<close>.
\<close>

definition parse_tokens :: "nat option \<Rightarrow> fstream \<Rightarrow> (stop + parse_state) option" where
  "parse_tokens token0 stream =
     (case outer_loop \<lparr>source_stream = stream, objects = [], token_list = [],
                        current_indent = 0, token = token0\<rparr> of
        None \<Rightarrow> None
      | Some (Inl e) \<Rightarrow> Some (Inl e)
      | Some (Inr st) \<Rightarrow>
          Some (Inr (st\<lparr>objects := objects st @ [eof_token],
                         token := Some (length (objects st)),
                         token_list := token_list st @ [length (objects st)]\<rparr>)))"

text \<open>
  \<open>print_tokens\<close>: the objects the list points to, in the order of the list. Every
  pointer in the list is the address of an allocated object (\<open>well_formed\<close> below).
\<close>

definition print_tokens :: "parse_state \<Rightarrow> token list" where
  "print_tokens st = map (\<lambda>p. objects st ! p) (token_list st)"

text \<open>
  What a run of the program on a file prints. \<open>main\<close> ignores the value
  \<open>parse_tokens\<close> returns and prints the list in either case.
\<close>

datatype printed =
    Tokens "token list"
  | Error message
  | Undefined

definition scan :: "nat option \<Rightarrow> char list \<Rightarrow> printed option" where
  "scan token0 bytes =
     (case parse_tokens token0 (fresh bytes) of
        None \<Rightarrow> None
      | Some (Inl (Exit m)) \<Rightarrow> Some (Error m)
      | Some (Inl (Return_false st)) \<Rightarrow> Some (Tokens (print_tokens st))
      | Some (Inl Wild_pointer) \<Rightarrow> Some Undefined
      | Some (Inr st) \<Rightarrow> Some (Tokens (print_tokens st)))"

section \<open>Notions used in the statements\<close>

text \<open>
  The characters for which one of the tests of the dispatch succeeds, in the order of
  the tests.
\<close>

definition has_category :: "int \<Rightarrow> bool" where
  "has_category input_char \<longleftrightarrow>
     input_char = 35 \<or> isalpha input_char \<or> input_char = 95 \<or> input_char = 10 \<or>
     isspace input_char \<or> input_char = 34 \<or> input_char = 39 \<or> isdigit input_char \<or>
     ispunct input_char"

text \<open>
  The classes the dispatch allocates: all but \<open>eof_token\<close> and \<open>invalid_token\<close>.
\<close>

definition from_dispatch :: "token \<Rightarrow> bool" where
  "from_dispatch object =
     (case object of eof_token \<Rightarrow> False | invalid_token _ \<Rightarrow> False | _ \<Rightarrow> True)"

text \<open>
  The invariant of the two loops: every pointer in the list points to an object, and
  every object is of a class the dispatch allocates.
\<close>

definition well_formed :: "parse_state \<Rightarrow> bool" where
  "well_formed st \<longleftrightarrow>
     list_all (\<lambda>p. p < length (objects st)) (token_list st) \<and>
     list_all from_dispatch (objects st)"

text \<open>
  Whether the characters after the opening quote of a char literal hold a closing
  quote, in the words of the specification: a single quote that is not escaped, where
  a backslash escapes the character after it when that character is a single quote or
  a backslash, and stands alone otherwise.
\<close>

fun closing_quote :: "char list \<Rightarrow> bool" where
  "closing_quote [] = False"
| "closing_quote (c # cs) =
     (if c = CHR 0x5C then
        (case cs of
           [] \<Rightarrow> False
         | d # ds \<Rightarrow> if d = CHR 0x27 \<or> d = CHR 0x5C then closing_quote ds else closing_quote cs)
      else if c = CHR 0x27 then True
      else closing_quote cs)"

section \<open>Running the scanner on a given file\<close>

text \<open>
  The equations that unfold a run on a concrete file: the definitions above and the
  recursion equations of the loops.
\<close>

lemmas scan_eval =
  scan_def parse_tokens_def fresh_def outer_loop.simps inner_loop.simps loop_body_def
  select_token_def new_def get_def peek_def eof_def EOF_def
  isalpha_def isdigit_def isspace_def ispunct_def isxdigit_def to_char_def char_of_def
  parse_token_def count_spaces_def print_tokens_def
  literal_parse_token_def constant_parse_token_def integer_parse_token_def
  punctuation_parse_token_def punctuation_switch_def peek_append_def get_append_def
  constant_loop.simps symbol_loop.simps hex_loop.simps dec_loop.simps literal_loop.simps
  whitespace_loop.simps comment_loop.simps spaces_loop.simps

text \<open>
  The basic sequence of the specification, \<open>x = 1\<close>: a symbol, whitespace, a
  punctuation, whitespace, an integer and the end of file.
\<close>

lemma scan_basic_sequence:
  "scan token0 ''x = 1'' =
     Some (Tokens [symbol_token ''x'', whitespace_token, punctuation_token ''='',
                   whitespace_token, integer_token ''1'', eof_token])"
  by (simp add: scan_eval)

lemma scan_empty_file: "scan token0 [] = Some (Tokens [eof_token])"
  by (simp add: scan_eval)

subsection \<open>Characters as the values \<open>get()\<close> returns\<close>

lemma of_char_eq_10 [simp]: "(of_char c :: int) = 10 \<longleftrightarrow> c = CHR 0x0A"
proof -
  have "(10::int) = of_char (CHR 0x0A)" by simp
  then show ?thesis by (simp only: of_char_eq_iff)
qed

lemma of_char_eq_34 [simp]: "(of_char c :: int) = 34 \<longleftrightarrow> c = CHR 0x22"
proof -
  have "(34::int) = of_char (CHR 0x22)" by simp
  then show ?thesis by (simp only: of_char_eq_iff)
qed

lemma of_char_eq_39 [simp]: "(of_char c :: int) = 39 \<longleftrightarrow> c = CHR 0x27"
proof -
  have "(39::int) = of_char (CHR 0x27)" by simp
  then show ?thesis by (simp only: of_char_eq_iff)
qed

lemma of_char_eq_92 [simp]: "(of_char c :: int) = 92 \<longleftrightarrow> c = CHR 0x5C"
proof -
  have "(92::int) = of_char (CHR 0x5C)" by simp
  then show ?thesis by (simp only: of_char_eq_iff)
qed

lemma of_char_nonneg [simp]: "(0::int) \<le> of_char c"
proof -
  have "(of_char c :: int) = int (of_char c)" by (simp only: of_nat_of_char)
  then show ?thesis by linarith
qed

lemma of_char_not_EOF [simp]: "(of_char c :: int) \<noteq> - 1"
  using of_char_nonneg [of c] by linarith

section \<open>String literals\<close>

text \<open>
  What the loop of \<open>literal_token::parse_token\<close> does with a line feed read as an
  ordinary character: it appends it and goes on.
\<close>

lemma literal_loop_line_feed:
  "literal_loop \<lparr>chars = CHR 0x0A # rest, eofbit = False\<rparr> literal_string =
     literal_loop \<lparr>chars = rest, eofbit = False\<rparr> (literal_string @ [CHR 0x0A])"
  by (subst literal_loop.simps) (simp add: get_def to_char_def char_of_def)

text \<open>
  C1. The claim: whenever a line terminator or the end of input is reached inside a
  double-quoted string literal before the closing quote, the scan reports an
  unterminated literal and stops at once, with no further token and no end-of-file
  token. The code tests for the line terminator only right after a backslash. On the
  five characters \<open>"a\<close>, line feed, \<open>b"\<close> the line feed is reached inside the literal,
  and the scan runs to completion: the line feed becomes part of the value of the
  literal, and the end-of-file token follows.
\<close>

theorem C1_line_feed_inside_literal_is_accepted:
  "scan token0 [CHR 0x22, CHR ''a'', CHR 0x0A, CHR ''b'', CHR 0x22] =
     Some (Tokens [literal_token [CHR ''a'', CHR 0x0A, CHR ''b''], eof_token])"
  by (simp add: scan_eval)

text \<open>
  The half of C1 the code does meet: a literal with no closing quote and no backslash
  before the end of input ends the run with the message about the end of file.
\<close>

lemma literal_loop_end_of_input:
  "CHR 0x22 \<notin> set cs \<Longrightarrow> CHR 0x5C \<notin> set cs \<Longrightarrow>
   literal_loop \<lparr>chars = cs, eofbit = False\<rparr> literal_string =
     Inl EOF_before_closing_literal_quotes"
proof (induction cs arbitrary: literal_string)
  case Nil
  show ?case by (subst literal_loop.simps) (simp add: get_def EOF_def)
next
  case (Cons c cs)
  from Cons.prems have "c \<noteq> CHR 0x22" "c \<noteq> CHR 0x5C" by auto
  with Cons show ?case
    by (subst literal_loop.simps) (simp add: get_def)
qed

text \<open>
  The fatal cases at concrete inputs: the end of input inside a literal, and a line
  feed or the end of input right after a backslash.
\<close>

lemma scan_fatal_literal:
  "scan token0 [CHR 0x22, CHR ''a'', CHR ''b'', CHR ''c''] =
     Some (Error EOF_before_closing_literal_quotes)"
  "scan token0 [CHR 0x22, CHR ''a'', CHR 0x5C] =
     Some (Error EOF_before_closing_literal_quotes)"
  "scan token0 [CHR 0x22, CHR ''a'', CHR 0x5C, CHR 0x0A, CHR ''b'', CHR 0x22] =
     Some (Error EOL_before_closing_literal_quotes)"
  by (simp_all add: scan_eval)

text \<open>
  Escape fidelity, as the specification tests it: in \<open>"ab\"c"\<close> the backslash and the
  quote after it are both kept in the value.
\<close>

lemma scan_escaped_quote:
  "scan token0 [CHR 0x22, CHR ''a'', CHR ''b'', CHR 0x5C, CHR 0x22, CHR ''c'', CHR 0x22] =
     Some (Tokens [literal_token [CHR ''a'', CHR ''b'', CHR 0x5C, CHR 0x22, CHR ''c''],
                   eof_token])"
  by (simp add: scan_eval)

text \<open>
  A backslash before a character that is not the quote, a backslash or a line feed:
  the backslash is dropped and the character is appended twice, once when it is peeked
  and once when the next turn of the loop reads it.
\<close>

lemma literal_loop_other_escape:
  assumes "c \<noteq> CHR 0x22" "c \<noteq> CHR 0x5C" "c \<noteq> CHR 0x0A"
  shows "literal_loop \<lparr>chars = CHR 0x5C # c # rest, eofbit = False\<rparr> literal_string =
           literal_loop \<lparr>chars = rest, eofbit = False\<rparr> (literal_string @ [c, c])"
  using assms
  by (subst literal_loop.simps, simp add: get_def peek_def to_char_def)
     (subst literal_loop.simps, simp add: get_def to_char_def)

text \<open>
  C6. The claim: inside a string literal, a character that follows a backslash and is
  neither the double quote nor a backslash is copied into the value exactly once. The
  code appends the character it has peeked and does not read it, so the next turn of
  the loop reads the same character and appends it again; the backslash itself is
  dropped. The literal \<open>"a\nb"\<close> gets the value \<open>annb\<close>.
\<close>

theorem C6_character_after_backslash_is_copied_twice:
  "scan token0 [CHR 0x22, CHR ''a'', CHR 0x5C, CHR ''n'', CHR ''b'', CHR 0x22] =
     Some (Tokens [literal_token ''annb'', eof_token])"
  by (simp add: scan_eval)

section \<open>Char literals\<close>

text \<open>
  The loop of \<open>constant_token::parse_token\<close> returns only from a stream that is not at
  its end and holds a closing quote. The proof is by induction on the approximations
  of the loop.
\<close>

lemma constant_loop_returns_only_when_closed:
  assumes run: "constant_loop stream constant_string = Some r"
  shows "\<not> eofbit stream \<and> closing_quote (chars stream)"
proof (rule constant_loop.raw_induct
    [where P = "\<lambda>stream constant_string r. \<not> eofbit stream \<and> closing_quote (chars stream)",
     OF _ run])
  fix loop stream constant_string r
  assume IH: "\<And>stream constant_string r. loop stream constant_string = Some r \<Longrightarrow>
                \<not> eofbit stream \<and> closing_quote (chars stream)"
    and unfolded: "(case get stream of (input_char, stream) \<Rightarrow>
        if input_char = 92 then
          (case peek stream of (input_char, stream) \<Rightarrow>
             if input_char = 39 \<or> input_char = 92 then
               (let constant_string = constant_string @ [CHR 0x5C] in
                case get stream of (input_char, stream) \<Rightarrow>
                  loop stream (constant_string @ [to_char input_char]))
             else loop stream (constant_string @ [to_char input_char]))
        else if input_char \<noteq> 39 then
          loop stream (constant_string @ [to_char input_char])
        else (case get stream of (input_char, stream) \<Rightarrow>
                Some (constant_string, input_char, stream))) = Some r"
  show "\<not> eofbit stream \<and> closing_quote (chars stream)"
  proof (cases "eofbit stream")
    case True
    with unfolded have "loop stream (constant_string @ [to_char (- 1)]) = Some r"
      by (simp add: get_def EOF_def)
    from IH [OF this] True show ?thesis by simp
  next
    case False
    show ?thesis
    proof (cases "chars stream")
      case Nil
      with False unfolded
      have "loop (stream\<lparr>eofbit := True\<rparr>) (constant_string @ [to_char (- 1)]) = Some r"
        by (simp add: get_def EOF_def)
      from IH [OF this] show ?thesis by simp
    next
      case (Cons c cs)
      show ?thesis
      proof (cases "c = CHR 0x5C")
        case backslash: True
        show ?thesis
        proof (cases cs)
          case Nil
          with False Cons backslash unfolded
          have "loop (stream\<lparr>chars := [], eofbit := True\<rparr>)
                  (constant_string @ [to_char (- 1)]) = Some r"
            by (simp add: get_def peek_def EOF_def)
          from IH [OF this] show ?thesis by simp
        next
          case (Cons d ds)
          show ?thesis
          proof (cases "d = CHR 0x27 \<or> d = CHR 0x5C")
            case True
            with False \<open>chars stream = c # cs\<close> Cons backslash unfolded
            have "loop (stream\<lparr>chars := ds\<rparr>)
                    (constant_string @ [CHR 0x5C] @ [to_char (of_char d)]) = Some r"
              by (auto simp add: get_def peek_def EOF_def)
            from IH [OF this] True False \<open>chars stream = c # cs\<close> Cons backslash
            show ?thesis by simp
          next
            case other: False
            with False \<open>chars stream = c # cs\<close> Cons backslash unfolded
            have "loop (stream\<lparr>chars := d # ds\<rparr>)
                    (constant_string @ [to_char (of_char d)]) = Some r"
              by (auto simp add: get_def peek_def EOF_def)
            from IH [OF this] other False \<open>chars stream = c # cs\<close> Cons backslash
            show ?thesis by simp
          qed
        qed
      next
        case no_backslash: False
        show ?thesis
        proof (cases "c = CHR 0x27")
          case True
          with False Cons no_backslash show ?thesis by simp
        next
          case no_quote: False
          with False Cons no_backslash unfolded
          have "loop (stream\<lparr>chars := cs\<rparr>) (constant_string @ [to_char (of_char c)]) = Some r"
            by (simp add: get_def EOF_def)
          from IH [OF this] False Cons no_backslash no_quote show ?thesis by simp
        qed
      qed
    qed
  qed
qed

lemma constant_loop_diverges:
  "eofbit stream \<or> \<not> closing_quote (chars stream) \<Longrightarrow>
   constant_loop stream constant_string = None"
  using constant_loop_returns_only_when_closed [of stream constant_string]
  by (cases "constant_loop stream constant_string") auto

text \<open>
  Conversely the loop returns when there is a closing quote, so the condition is exact.
\<close>

lemma constant_loop_returns:
  "closing_quote cs \<Longrightarrow>
   \<exists>r. constant_loop \<lparr>chars = cs, eofbit = False\<rparr> constant_string = Some r"
proof (induction cs arbitrary: constant_string rule: closing_quote.induct)
  case 1
  then show ?case by simp
next
  case (2 c cs)
  show ?case
  proof (cases "c = CHR 0x5C")
    case True
    with "2.prems" obtain d ds where cs: "cs = d # ds" by (cases cs) auto
    show ?thesis
    proof (cases "d = CHR 0x27 \<or> d = CHR 0x5C")
      case quote: True
      with "2.prems" True cs have "closing_quote ds" by simp
      from "2.IH"(1) [OF True cs quote this]
      show ?thesis using True cs quote
        by (subst constant_loop.simps) (auto simp: get_def peek_def)
    next
      case other: False
      with "2.prems" True cs have "closing_quote cs" by simp
      from "2.IH"(2) [OF True cs other this]
      show ?thesis using True cs other
        by (subst constant_loop.simps) (auto simp: get_def peek_def)
    qed
  next
    case False
    show ?thesis
    proof (cases "c = CHR 0x27")
      case True
      then show ?thesis using False
        by (subst constant_loop.simps) (auto simp: get_def split: prod.splits)
    next
      case no_quote: False
      with "2.prems" False have "closing_quote cs" by simp
      from "2.IH"(3) [OF False no_quote this]
      show ?thesis using False no_quote
        by (subst constant_loop.simps) (auto simp: get_def)
    qed
  qed
qed

lemma loop_body_char_literal_diverges:
  assumes "eofbit (source_stream st) \<or> \<not> closing_quote (chars (source_stream st))"
  shows "loop_body st 39 = None"
proof -
  have sel: "select_token st 39 = new (constant_token []) st"
    by (simp add: select_token_def isalpha_def isspace_def)
  have "parse_token (constant_token []) (source_stream st) 39 = None"
    using assms by (simp add: parse_token_def constant_parse_token_def constant_loop_diverges)
  then show ?thesis
    by (simp add: loop_body_def sel new_def)
qed

text \<open>
  C8. When the characters after the opening single quote hold no closing quote, the
  char-literal sub-scanner does not return: it has no test for the end of input and
  keeps reading past it. The driver therefore does not return either, from whatever
  state it meets the quote in, and neither does a scan of a file that starts with the
  quote. (On the same characters after a double quote the scan stops with the message
  about the end of file, see \<open>literal_loop_end_of_input\<close>.)
\<close>

theorem C8_unterminated_char_literal_never_returns:
  assumes "\<not> closing_quote rest"
  shows "constant_parse_token \<lparr>chars = rest, eofbit = False\<rparr> 39 = None \<and>
         inner_loop (st\<lparr>source_stream := \<lparr>chars = rest, eofbit = False\<rparr>\<rparr>) 39 = None \<and>
         scan token0 (CHR 0x27 # rest) = None"
proof (intro conjI)
  show "constant_parse_token \<lparr>chars = rest, eofbit = False\<rparr> 39 = None"
    using assms by (simp add: constant_parse_token_def constant_loop_diverges)
  have body: "loop_body (st\<lparr>source_stream := \<lparr>chars = rest, eofbit = False\<rparr>\<rparr>) 39 = None"
    for st
    using assms by (simp add: loop_body_char_literal_diverges)
  show inner: "inner_loop (st\<lparr>source_stream := \<lparr>chars = rest, eofbit = False\<rparr>\<rparr>) 39 = None"
    for st
    by (subst inner_loop.simps) (simp add: body eof_def)
  have "outer_loop \<lparr>source_stream = fresh (CHR 0x27 # rest), objects = [], token_list = [],
                    current_indent = 0, token = token0\<rparr> = None"
    using inner [of "\<lparr>source_stream = fresh (CHR 0x27 # rest), objects = [],
                      token_list = [], current_indent = 0, token = token0\<rparr>"]
    by (subst outer_loop.simps) (simp add: fresh_def eof_def get_def)
  then show "scan token0 (CHR 0x27 # rest) = None"
    by (simp add: scan_def parse_tokens_def)
qed

text \<open>The char literal \<open>'a\<close> at the end of a file: the scan does not return.\<close>

theorem C8_witness:
  "\<not> closing_quote ''a'' \<and> scan None [CHR 0x27, CHR ''a''] = None"
  using C8_unterminated_char_literal_never_returns [of "''a''"] by simp

section \<open>Indentation\<close>

text \<open>
  The count of the end-of-line branch on a line that starts with \<open>n + 1\<close> spaces
  followed by a character that is not whitespace: the first space is read before the
  loop, the loop counts the \<open>n\<close> others.
\<close>

lemma spaces_loop_counts:
  assumes "\<not> isspace (of_char c)"
  shows "spaces_loop \<lparr>chars = replicate n (CHR '' '') @ c # rest, eofbit = False\<rparr> 32 spaces =
           (\<lparr>chars = c # rest, eofbit = False\<rparr>, spaces + int n)"
proof (induction n arbitrary: spaces)
  case 0
  from assms show ?case
    by (subst spaces_loop.simps) (simp add: eof_def peek_def)
next
  case (Suc n)
  show ?case
    by (subst spaces_loop.simps) (simp add: eof_def peek_def get_def isspace_def Suc.IH)
qed

lemma count_spaces_is_one_less:
  assumes "\<not> isspace (of_char c)"
  shows "count_spaces \<lparr>chars = replicate (Suc n) (CHR '' '') @ c # rest, eofbit = False\<rparr> =
           (\<lparr>chars = c # rest, eofbit = False\<rparr>, int n)"
  using spaces_loop_counts [OF assms, of n rest 0]
  by (simp add: count_spaces_def peek_def get_def isspace_def)

text \<open>
  C2. The claim: when line one has indentation 0 and line two begins with exactly two
  spaces, the stream has \<open>Indent(2)\<close> right before the first token of line two, the
  count being the number of leading whitespace characters of the new line. The code
  reads the first whitespace character before the counting loop starts and counts only
  those after it: two leading spaces give \<open>Indent(1)\<close>.
\<close>

theorem C2_two_spaces_give_indent_one:
  "scan token0 [CHR ''a'', CHR 0x0A, CHR '' '', CHR '' '', CHR ''b''] =
     Some (Tokens [symbol_token ''a'', indent_token 1, symbol_token ''b'', eof_token])"
  by (simp add: scan_eval)

text \<open>A third line back at the margin gives \<open>Dedent(0)\<close>.\<close>

lemma scan_dedent:
  "scan token0 [CHR ''a'', CHR 0x0A, CHR '' '', CHR '' '', CHR ''b'', CHR 0x0A, CHR ''c''] =
     Some (Tokens [symbol_token ''a'', indent_token 1, symbol_token ''b'', dedent_token 0,
                   symbol_token ''c'', eof_token])"
  by (simp add: scan_eval)

section \<open>Comments\<close>

text \<open>
  The loop of the comment branch on a comment that ends with a line feed: it reads
  the text and the line feed.
\<close>

lemma comment_loop_skips:
  "CHR 0x0A \<notin> set body \<Longrightarrow> peek_character \<noteq> 10 \<Longrightarrow>
   comment_loop \<lparr>chars = body @ CHR 0x0A # rest, eofbit = False\<rparr> peek_character =
     \<lparr>chars = rest, eofbit = False\<rparr>"
proof (induction body arbitrary: peek_character)
  case Nil
  then show ?case
    by (subst comment_loop.simps, simp add: eof_def get_def) (subst comment_loop.simps, simp)
next
  case (Cons c body)
  from Cons.prems have c: "(of_char c :: int) \<noteq> 10" by auto
  from Cons.prems have "CHR 0x0A \<notin> set body" by simp
  from Cons.IH [OF this c] Cons.prems(2) show ?case
    by (subst comment_loop.simps) (simp add: eof_def get_def)
qed

lemma select_token_comment:
  assumes "body \<noteq> []" "CHR 0x0A \<notin> set body"
    and "source_stream st = \<lparr>chars = body @ CHR 0x0A # rest, eofbit = False\<rparr>"
  shows "select_token st 35 =
           st\<lparr>source_stream := \<lparr>chars = rest, eofbit = False\<rparr>,
              objects := objects st @ [eol_token], token := Some (length (objects st))\<rparr>"
proof -
  from assms(1) obtain c cs where body: "body = c # cs" by (cases body) auto
  with assms(2) have "(of_char c :: int) \<noteq> 10" by auto
  then show ?thesis
    using comment_loop_skips [OF assms(2), of "of_char c" rest] assms(3) body
    by (simp add: select_token_def peek_def new_def)
qed

lemma loop_body_comment:
  assumes "body \<noteq> []" "CHR 0x0A \<notin> set body"
    and "source_stream st = \<lparr>chars = body @ CHR 0x0A # next # rest, eofbit = False\<rparr>"
  shows "loop_body st 35 =
           Some (Inr (st\<lparr>source_stream := \<lparr>chars = rest, eofbit = False\<rparr>,
                         objects := objects st @ [eol_token],
                         token := Some (length (objects st)),
                         token_list := token_list st @ [length (objects st)]\<rparr>, of_char next))"
  by (simp add: loop_body_def select_token_comment [OF assms] parse_token_def get_def)

text \<open>
  C7. For the input \<open>#\<close>, a comment text, a line feed and \<open>code\<close>, the comment text
  gives no token: the stream is one end-of-line token, then the tokens of \<open>code\<close>
  (which alone scans to the symbol \<open>code\<close>), then the end of file. This holds for
  every comment text that is not empty and has no line feed in it.
\<close>

theorem C7_comment_collapses_to_one_end_of_line:
  assumes "body \<noteq> []" and "CHR 0x0A \<notin> set body"
  shows "scan token0 (CHR ''#'' # body @ CHR 0x0A # ''code'') =
           Some (Tokens [eol_token, symbol_token ''code'', eof_token]) \<and>
         scan token0 ''code'' = Some (Tokens [symbol_token ''code'', eof_token])"
proof
  let ?st = "\<lparr>source_stream = \<lparr>chars = body @ CHR 0x0A # ''code'', eofbit = False\<rparr>,
              objects = [], token_list = [], current_indent = 0, token = token0\<rparr>"
  have body: "loop_body ?st 35 =
           Some (Inr (?st\<lparr>source_stream := \<lparr>chars = ''ode'', eofbit = False\<rparr>,
                          objects := objects ?st @ [eol_token],
                          token := Some (length (objects ?st)),
                          token_list := token_list ?st @ [length (objects ?st)]\<rparr>,
                      of_char CHR ''c''))"
    by (rule loop_body_comment [OF assms]) simp
  have "inner_loop ?st 35 = Some (Inr
     \<lparr>source_stream = \<lparr>chars = [], eofbit = True\<rparr>,
      objects = [eol_token, symbol_token ''code''], token_list = [0, 1],
      current_indent = 0, token = Some 1\<rparr>)"
    by (subst inner_loop.simps, simp add: body eof_def) (simp add: scan_eval)
  then show "scan token0 (CHR ''#'' # body @ CHR 0x0A # ''code'') =
           Some (Tokens [eol_token, symbol_token ''code'', eof_token])"
    by (simp add: scan_def parse_tokens_def fresh_def outer_loop.simps eof_def get_def
          print_tokens_def)
  show "scan token0 ''code'' = Some (Tokens [symbol_token ''code'', eof_token])"
    by (simp add: scan_eval)
qed

text \<open>The input of the specification, \<open>#comment\<close>, a line feed, \<open>code\<close>.\<close>

theorem C7_witness:
  "''comment'' \<noteq> [] \<and> CHR 0x0A \<notin> set ''comment'' \<and>
   scan None (CHR ''#'' # ''comment'' @ CHR 0x0A # ''code'') =
     Some (Tokens [eol_token, symbol_token ''code'', eof_token])"
  using C7_comment_collapses_to_one_end_of_line [of "''comment''" None] by simp

text \<open>
  C10, as stated: the comment branch reads the line feed that ends the comment, so the
  end-of-line branch never runs for the line after a comment, and no \<open>Indent\<close> or
  \<open>Dedent\<close> is emitted for it. This fails for a comment with no text: on \<open>#\<close>, a line
  feed, two spaces and \<open>x\<close> the loop of the comment branch does not run at all, the
  line feed is left to be the next input character, the end-of-line branch measures
  the second line and an \<open>Indent\<close> is emitted for it (and no whitespace token).
\<close>

theorem C10_counterexample:
  "scan None [CHR ''#'', CHR 0x0A, CHR '' '', CHR '' '', CHR ''x''] =
     Some (Tokens [eol_token, indent_token 1, symbol_token ''x'', eof_token])"
  by (simp add: scan_eval)

text \<open>
  C10, amended: when the comment has at least one character of text, the turn of the
  loop that meets \<open>#\<close> reads the text and the line feed that ends it, allocates one
  end-of-line token, and leaves the first character \<open>next\<close> of the following line as
  the input character; no other part of the state changes, so \<open>current_indent\<close> is
  neither read nor written. When \<open>next\<close> is a whitespace character other than the line
  feed, the following turn allocates a whitespace token, again with \<open>current_indent\<close>
  untouched: no \<open>Indent\<close> or \<open>Dedent\<close> is emitted for that line.
\<close>

theorem C10_line_after_comment_is_not_measured:
  assumes "body \<noteq> []" and "CHR 0x0A \<notin> set body"
    and "source_stream st = \<lparr>chars = body @ CHR 0x0A # next # rest, eofbit = False\<rparr>"
  shows "loop_body st 35 =
           Some (Inr (st\<lparr>source_stream := \<lparr>chars = rest, eofbit = False\<rparr>,
                         objects := objects st @ [eol_token],
                         token := Some (length (objects st)),
                         token_list := token_list st @ [length (objects st)]\<rparr>, of_char next)) \<and>
         (isspace (of_char next) \<and> next \<noteq> CHR 0x0A \<longrightarrow>
          loop_body (st\<lparr>source_stream := \<lparr>chars = rest, eofbit = False\<rparr>,
                        objects := objects st @ [eol_token],
                        token := Some (length (objects st)),
                        token_list := token_list st @ [length (objects st)]\<rparr>) (of_char next) =
           Some (Inr (st\<lparr>source_stream := snd (whitespace_loop \<lparr>chars = rest, eofbit = False\<rparr>),
                         objects := objects st @ [eol_token, whitespace_token],
                         token := Some (Suc (length (objects st))),
                         token_list :=
                           token_list st @ [length (objects st), Suc (length (objects st))]\<rparr>,
                      fst (whitespace_loop \<lparr>chars = rest, eofbit = False\<rparr>))))"
proof (intro conjI impI)
  show "loop_body st 35 =
           Some (Inr (st\<lparr>source_stream := \<lparr>chars = rest, eofbit = False\<rparr>,
                         objects := objects st @ [eol_token],
                         token := Some (length (objects st)),
                         token_list := token_list st @ [length (objects st)]\<rparr>, of_char next))"
    using assms by (rule loop_body_comment)
next
  let ?st1 = "st\<lparr>source_stream := \<lparr>chars = rest, eofbit = False\<rparr>,
                 objects := objects st @ [eol_token],
                 token := Some (length (objects st)),
                 token_list := token_list st @ [length (objects st)]\<rparr>"
  assume ws: "isspace (of_char next) \<and> next \<noteq> CHR 0x0A"
  then have sel: "select_token ?st1 (of_char next) = new whitespace_token ?st1"
    by (auto simp: select_token_def isspace_def isalpha_def)
  show "loop_body ?st1 (of_char next) =
           Some (Inr (st\<lparr>source_stream := snd (whitespace_loop \<lparr>chars = rest, eofbit = False\<rparr>),
                         objects := objects st @ [eol_token, whitespace_token],
                         token := Some (Suc (length (objects st))),
                         token_list :=
                           token_list st @ [length (objects st), Suc (length (objects st))]\<rparr>,
                      fst (whitespace_loop \<lparr>chars = rest, eofbit = False\<rparr>)))"
    by (simp add: loop_body_def sel new_def parse_token_def nth_append case_prod_beta
          list_update_append)
qed

text \<open>
  The comment \<open>#c\<close> met at indentation 3, with the next line starting with two spaces:
  an end-of-line token, then a whitespace token, and \<open>current_indent\<close> is still 3.
\<close>

theorem C10_witness:
  "''c'' \<noteq> [] \<and> CHR 0x0A \<notin> set ''c'' \<and> isspace (of_char (CHR '' '')) \<and>
   loop_body \<lparr>source_stream = \<lparr>chars = ''c'' @ CHR 0x0A # CHR '' '' # '' x'', eofbit = False\<rparr>,
              objects = [symbol_token ''a'', indent_token 3], token_list = [0, 1],
              current_indent = 3, token = Some 1\<rparr> 35 =
     Some (Inr (\<lparr>source_stream = \<lparr>chars = '' x'', eofbit = False\<rparr>,
                 objects = [symbol_token ''a'', indent_token 3, eol_token],
                 token_list = [0, 1, 2], current_indent = 3, token = Some 2\<rparr>, 32)) \<and>
   loop_body \<lparr>source_stream = \<lparr>chars = '' x'', eofbit = False\<rparr>,
              objects = [symbol_token ''a'', indent_token 3, eol_token],
              token_list = [0, 1, 2], current_indent = 3, token = Some 2\<rparr> 32 =
     Some (Inr (\<lparr>source_stream = \<lparr>chars = [], eofbit = False\<rparr>,
                 objects = [symbol_token ''a'', indent_token 3, eol_token, whitespace_token],
                 token_list = [0, 1, 2, 3], current_indent = 3, token = Some 3\<rparr>, 120))"
  using C10_line_after_comment_is_not_measured
    [of "''c''" "\<lparr>source_stream = \<lparr>chars = ''c'' @ CHR 0x0A # CHR '' '' # '' x'', eofbit = False\<rparr>,
                  objects = [symbol_token ''a'', indent_token 3], token_list = [0, 1],
                  current_indent = 3, token = Some 1\<rparr>" "CHR '' ''" "'' x''"]
  by (simp add: isspace_def whitespace_loop.simps get_def numeral_2_eq_2 numeral_3_eq_3)

text \<open>
  The same in a whole run: after \<open>b\<close> at indentation 3 and a comment, the line
  \<open>  x\<close> gives a whitespace token and no \<open>Dedent\<close>.
\<close>

lemma scan_line_after_comment:
  "scan token0 (''a'' @ [CHR 0x0A] @ ''    b #c'' @ [CHR 0x0A] @ ''  x'') =
     Some (Tokens [symbol_token ''a'', indent_token 3, symbol_token ''b'', whitespace_token,
                   eol_token, whitespace_token, symbol_token ''x'', eof_token])"
  by (simp add: scan_eval)

section \<open>Punctuation\<close>

text \<open>
  C5, as stated: for every lead character of the table of punctuation, the input that
  consists of the longest extension of that lead gives one punctuation token with the
  whole sequence. This fails for the lead \<open>#\<close>: the driver tests for \<open>#\<close> first and takes
  it as the start of a comment, so the input \<open>##\<close> gives an end-of-line token and no
  punctuation token.
\<close>

theorem C5_counterexample:
  "scan None ''##'' = Some (Tokens [eol_token, eof_token]) \<and>
   scan None ''##'' \<noteq> Some (Tokens [punctuation_token ''##'', eof_token])"
  by (simp add: scan_eval)

text \<open>
  C5, amended: for every lead character of the table other than \<open>#\<close>, each extension
  the table lists, the longest among them, scanned as a whole input, gives one
  punctuation token with the whole sequence, followed by the end of file. For the lead
  \<open>#\<close> the punctuation sub-scanner itself, called on \<open>#\<close> with \<open>#\<close> next in the stream,
  builds \<open>##\<close>; the driver never calls it on that lead.
\<close>

theorem C5_maximal_munch:
  "scan token0 ''!='' = Some (Tokens [punctuation_token ''!='', eof_token]) \<and>
   scan token0 ''%='' = Some (Tokens [punctuation_token ''%='', eof_token]) \<and>
   scan token0 ''&&'' = Some (Tokens [punctuation_token ''&&'', eof_token]) \<and>
   scan token0 ''&='' = Some (Tokens [punctuation_token ''&='', eof_token]) \<and>
   scan token0 ''*='' = Some (Tokens [punctuation_token ''*='', eof_token]) \<and>
   scan token0 ''++'' = Some (Tokens [punctuation_token ''++'', eof_token]) \<and>
   scan token0 ''+='' = Some (Tokens [punctuation_token ''+='', eof_token]) \<and>
   scan token0 ''--'' = Some (Tokens [punctuation_token ''--'', eof_token]) \<and>
   scan token0 ''-='' = Some (Tokens [punctuation_token ''-='', eof_token]) \<and>
   scan token0 ''->'' = Some (Tokens [punctuation_token ''->'', eof_token]) \<and>
   scan token0 ''->*'' = Some (Tokens [punctuation_token ''->*'', eof_token]) \<and>
   scan token0 ''..'' = Some (Tokens [punctuation_token ''..'', eof_token]) \<and>
   scan token0 ''...'' = Some (Tokens [punctuation_token ''...'', eof_token]) \<and>
   scan token0 ''/='' = Some (Tokens [punctuation_token ''/='', eof_token]) \<and>
   scan token0 ''::'' = Some (Tokens [punctuation_token ''::'', eof_token]) \<and>
   scan token0 ''<='' = Some (Tokens [punctuation_token ''<='', eof_token]) \<and>
   scan token0 ''<<'' = Some (Tokens [punctuation_token ''<<'', eof_token]) \<and>
   scan token0 ''<<='' = Some (Tokens [punctuation_token ''<<='', eof_token]) \<and>
   scan token0 ''=='' = Some (Tokens [punctuation_token ''=='', eof_token]) \<and>
   scan token0 ''>='' = Some (Tokens [punctuation_token ''>='', eof_token]) \<and>
   scan token0 ''>>'' = Some (Tokens [punctuation_token ''>>'', eof_token]) \<and>
   scan token0 ''>>='' = Some (Tokens [punctuation_token ''>>='', eof_token]) \<and>
   scan token0 ''||'' = Some (Tokens [punctuation_token ''||'', eof_token]) \<and>
   scan token0 ''|='' = Some (Tokens [punctuation_token ''|='', eof_token]) \<and>
   punctuation_parse_token (fresh ''#'') 35 = (''##'', - 1, \<lparr>chars = [], eofbit = True\<rparr>)"
  by (simp add: scan_eval)

section \<open>The objects behind the list\<close>

text \<open>
  A call of \<open>parse_token\<close> that returns leaves the object in its class, and the
  dispatch only adds objects of the classes it allocates, so the invariant holds
  after every turn of the inner loop and at the exit of both loops.
\<close>

lemma parse_token_from_dispatch:
  "parse_token this stream input_char = Some (Inr (object, r)) \<Longrightarrow> from_dispatch this \<Longrightarrow>
   from_dispatch object"
  unfolding parse_token_def from_dispatch_def
  by (cases this) (auto split: prod.splits sum.splits option.splits)

lemma from_dispatch_excludes:
  "list_all from_dispatch os \<Longrightarrow> eof_token \<notin> set os \<and> invalid_token c \<notin> set os"
  by (induction os) (auto simp: from_dispatch_def)

lemma select_token_well_formed:
  "well_formed st \<Longrightarrow> well_formed (select_token st input_char)"
  unfolding select_token_def new_def well_formed_def
  by (auto simp: list_all_iff from_dispatch_def split: prod.splits)

lemma loop_body_well_formed:
  assumes "loop_body st input_char = Some (Inr (st', input_char'))" and "well_formed st"
  shows "well_formed st'"
proof -
  let ?st = "select_token st input_char"
  have wf: "well_formed ?st" using assms(2) by (rule select_token_well_formed)
  from assms(1) obtain p object stream where
    p: "p < length (objects ?st)" and
    call: "parse_token (objects ?st ! p) (source_stream ?st) input_char
             = Some (Inr (object, input_char', stream))" and
    st': "st' = ?st\<lparr>source_stream := stream, objects := (objects ?st)[p := object],
                      token_list := token_list ?st @ [p]\<rparr>"
    unfolding loop_body_def Let_def
    by (auto split: option.splits if_splits sum.splits prod.splits)
  from wf p have "from_dispatch (objects ?st ! p)"
    unfolding well_formed_def by (simp add: list_all_length)
  with call have "from_dispatch object" by (rule parse_token_from_dispatch)
  moreover have "set ((objects ?st)[p := object]) \<subseteq> insert object (set (objects ?st))"
    by (rule set_update_subset_insert)
  ultimately show ?thesis using wf p unfolding st' well_formed_def
    by (auto simp: list_all_iff)
qed

lemma inner_loop_well_formed:
  assumes run: "inner_loop st input_char = Some r"
  shows "well_formed st \<longrightarrow> (\<forall>st'. r = Inr st' \<longrightarrow> well_formed st')"
proof (rule inner_loop.raw_induct
    [where P = "\<lambda>st input_char r. well_formed st \<longrightarrow> (\<forall>st'. r = Inr st' \<longrightarrow> well_formed st')",
     OF _ run])
  fix loop st input_char r
  assume IH: "\<And>st input_char r. loop st input_char = Some r \<Longrightarrow>
                well_formed st \<longrightarrow> (\<forall>st'. r = Inr st' \<longrightarrow> well_formed st')"
    and unfolded: "(if \<not> eof (source_stream st) then
                     (case loop_body st input_char of
                        None \<Rightarrow> None
                      | Some (Inl e) \<Rightarrow> Some (Inl e)
                      | Some (Inr (st, input_char)) \<Rightarrow> loop st input_char)
                    else Some (Inr st)) = Some r"
  show "well_formed st \<longrightarrow> (\<forall>st'. r = Inr st' \<longrightarrow> well_formed st')"
  proof (intro impI allI)
    fix st'
    assume wf: "well_formed st" and r: "r = Inr st'"
    show "well_formed st'"
    proof (cases "eof (source_stream st)")
      case True
      with unfolded r wf show ?thesis by simp
    next
      case False
      with unfolded r obtain st1 c1 where
        body: "loop_body st input_char = Some (Inr (st1, c1))" and
        rest: "loop st1 c1 = Some r"
        by (auto split: option.splits sum.splits prod.splits)
      from body wf have "well_formed st1" by (rule loop_body_well_formed)
      with IH [OF rest] r show ?thesis by blast
    qed
  qed
qed

lemma outer_loop_well_formed:
  assumes run: "outer_loop st = Some r"
  shows "well_formed st \<longrightarrow> (\<forall>st'. r = Inr st' \<longrightarrow> well_formed st')"
proof (rule outer_loop.raw_induct
    [where P = "\<lambda>st r. well_formed st \<longrightarrow> (\<forall>st'. r = Inr st' \<longrightarrow> well_formed st')",
     OF _ run])
  fix loop st r
  assume IH: "\<And>st r. loop st = Some r \<Longrightarrow>
                well_formed st \<longrightarrow> (\<forall>st'. r = Inr st' \<longrightarrow> well_formed st')"
    and unfolded: "(if \<not> eof (source_stream st) then
                     (case get (source_stream st) of (input_char, stream) \<Rightarrow>
                        (case inner_loop (st\<lparr>source_stream := stream\<rparr>) input_char of
                           None \<Rightarrow> None
                         | Some (Inl e) \<Rightarrow> Some (Inl e)
                         | Some (Inr st) \<Rightarrow> loop st))
                    else Some (Inr st)) = Some r"
  show "well_formed st \<longrightarrow> (\<forall>st'. r = Inr st' \<longrightarrow> well_formed st')"
  proof (intro impI allI)
    fix st'
    assume wf: "well_formed st" and r: "r = Inr st'"
    show "well_formed st'"
    proof (cases "eof (source_stream st)")
      case True
      with unfolded r wf show ?thesis by simp
    next
      case False
      obtain c stream where g: "get (source_stream st) = (c, stream)"
        by (cases "get (source_stream st)")
      from False unfolded r g obtain st1 where
        inner: "inner_loop (st\<lparr>source_stream := stream\<rparr>) c = Some (Inr st1)" and
        rest: "loop st1 = Some r"
        by (auto split: option.splits sum.splits)
      have "well_formed (st\<lparr>source_stream := stream\<rparr>)"
        using wf by (simp add: well_formed_def)
      with inner_loop_well_formed [OF inner] have "well_formed st1" by blast
      with IH [OF rest] r show ?thesis by blast
    qed
  qed
qed

text \<open>
  What \<open>parse_tokens\<close> returns with \<open>true\<close>: the state at the exit of the loops, which
  satisfies the invariant, with one \<open>eof_token\<close> allocated and pushed.
\<close>

lemma parse_tokens_returns_true:
  assumes "parse_tokens token0 stream = Some (Inr st)"
  shows "\<exists>st1. well_formed st1 \<and>
           print_tokens st = map (\<lambda>p. objects st1 ! p) (token_list st1) @ [eof_token] \<and>
           list_all from_dispatch (map (\<lambda>p. objects st1 ! p) (token_list st1))"
proof -
  let ?st0 = "\<lparr>source_stream = stream, objects = [], token_list = [],
                current_indent = 0, token = token0\<rparr>"
  from assms obtain st1 where
    loop: "outer_loop ?st0 = Some (Inr st1)" and
    st: "st = st1\<lparr>objects := objects st1 @ [eof_token],
                   token := Some (length (objects st1)),
                   token_list := token_list st1 @ [length (objects st1)]\<rparr>"
    unfolding parse_tokens_def by (auto split: option.splits sum.splits)
  have "well_formed ?st0" by (simp add: well_formed_def)
  with outer_loop_well_formed [OF loop] have wf: "well_formed st1" by blast
  have "print_tokens st = map (\<lambda>p. objects st1 ! p) (token_list st1) @ [eof_token]"
    using wf unfolding st print_tokens_def well_formed_def
    by (simp add: list_all_iff nth_append)
  moreover have "list_all from_dispatch (map (\<lambda>p. objects st1 ! p) (token_list st1))"
    using wf unfolding well_formed_def by (auto simp: list_all_iff)
  ultimately show ?thesis using wf by blast
qed

section \<open>Characters of no category\<close>

text \<open>
  C3. The claim: a character of no category gives an \<open>Invalid\<close> token holding that
  character. \<open>parse_tokens\<close> never allocates an \<open>invalid_token\<close>: when no test
  succeeds, \<open>token\<close> still points to the object of the previous turn, which is parsed
  again from the new character and pushed a second time. On \<open>a\<close> followed by the byte
  \<open>0x01\<close> the list holds the same symbol object twice, its text overwritten.
\<close>

theorem C3_no_invalid_token_is_produced:
  "scan token0 [CHR ''a'', CHR 0x01] =
     Some (Tokens [symbol_token [CHR 0x01], symbol_token [CHR 0x01], eof_token])"
  by (simp add: scan_eval)

text \<open>No run that returns \<open>true\<close> has an \<open>invalid_token\<close> in its list, whatever the file.\<close>

lemma parse_tokens_no_invalid_token:
  assumes "parse_tokens token0 stream = Some (Inr st)"
  shows "invalid_token c \<notin> set (print_tokens st)"
proof -
  from parse_tokens_returns_true [OF assms] obtain st1 where
    "well_formed st1" and
    pr: "print_tokens st = map (\<lambda>p. objects st1 ! p) (token_list st1) @ [eof_token]" and
    fd: "list_all from_dispatch (map (\<lambda>p. objects st1 ! p) (token_list st1))"
    by (elim exE conjE)
  from fd have "invalid_token c \<notin> set (map (\<lambda>p. objects st1 ! p) (token_list st1))"
    by (rule from_dispatch_excludes [THEN conjunct2])
  with pr show ?thesis by simp
qed

section \<open>The uninitialised pointer\<close>

text \<open>
  When the first character of the file has a category, or the file is empty, \<open>token\<close>
  is assigned before it is read, and the run does not depend on the value it started
  with.
\<close>

lemma select_token_overwrites:
  "has_category input_char \<Longrightarrow>
   select_token (st\<lparr>token := t\<rparr>) input_char = select_token st input_char"
  by (auto simp: select_token_def new_def has_category_def split: prod.splits)

lemma loop_body_token_irrelevant:
  "has_category input_char \<Longrightarrow>
   loop_body (st\<lparr>token := t\<rparr>) input_char = loop_body st input_char"
  by (simp add: loop_body_def select_token_overwrites)

lemma scan_token_irrelevant:
  assumes "bytes = [] \<or> has_category (of_char (hd bytes))"
  shows "scan token1 bytes = scan token2 bytes"
proof (cases bytes)
  case Nil
  then show ?thesis by (simp add: scan_eval)
next
  case (Cons c cs)
  let ?st = "\<lambda>t. \<lparr>source_stream = \<lparr>chars = cs, eofbit = False\<rparr>, objects = [],
                   token_list = [], current_indent = 0, token = t\<rparr>"
  from assms Cons have cat: "has_category (of_char c)" by simp
  have "loop_body (?st token1) (of_char c) = loop_body (?st token2) (of_char c)"
    using loop_body_token_irrelevant [OF cat, where st = "?st token2" and t = token1] by simp
  then have "inner_loop (?st token1) (of_char c) = inner_loop (?st token2) (of_char c)"
    by (subst (1 2) inner_loop.simps) (simp add: eof_def)
  then show ?thesis
    by (simp add: Cons scan_def parse_tokens_def fresh_def eof_def get_def
          outer_loop.simps [of "\<lparr>source_stream = _, objects = _, token_list = _,
                                 current_indent = _, token = _\<rparr>"])
qed

text \<open>
  C9. The claim: scanning is deterministic, two runs over the same characters give the
  same token stream. \<open>parse_tokens\<close> declares \<open>token\<close> without an initialiser and, when
  the first character of the file has no category, reads it before any assignment.
  On the one-byte file \<open>0x01\<close> a run in which the variable starts as the null pointer
  returns \<open>false\<close> and prints nothing, and a run in which it starts as any other value
  calls through a pointer to no object: what the run does is not determined by the
  file.
\<close>

theorem C9_first_character_without_category:
  "scan None [CHR 0x01] = Some (Tokens []) \<and> scan (Some 0) [CHR 0x01] = Some Undefined"
  by (simp add: scan_eval)

section \<open>The end-of-file token\<close>

text \<open>
  C4. Every run of \<open>parse_tokens\<close> that returns \<open>true\<close> leaves a token stream that is
  not empty, ends with the end-of-file token, and has no other end-of-file token.
\<close>

theorem C4_exactly_one_eof_token_at_the_end:
  assumes "parse_tokens token0 stream = Some (Inr st)"
  shows "print_tokens st \<noteq> [] \<and> last (print_tokens st) = eof_token \<and>
         eof_token \<notin> set (butlast (print_tokens st)) \<and>
         count_list (print_tokens st) eof_token = 1"
proof -
  from parse_tokens_returns_true [OF assms] obtain st1 where
    "well_formed st1" and
    pr: "print_tokens st = map (\<lambda>p. objects st1 ! p) (token_list st1) @ [eof_token]" and
    fd: "list_all from_dispatch (map (\<lambda>p. objects st1 ! p) (token_list st1))"
    by (elim exE conjE)
  from fd have no: "eof_token \<notin> set (map (\<lambda>p. objects st1 ! p) (token_list st1))"
    by (rule from_dispatch_excludes [where c = 0, THEN conjunct1])
  then have "count_list (map (\<lambda>p. objects st1 ! p) (token_list st1)) eof_token = 0"
    by (simp add: count_list_0_iff)
  with pr no show ?thesis by simp
qed

text \<open>The run on \<open>x = 1\<close> returns \<open>true\<close>; its stream ends with the only end-of-file token.\<close>

theorem C4_witness:
  "parse_tokens None (fresh ''x = 1'') = Some (Inr
     \<lparr>source_stream = \<lparr>chars = [], eofbit = True\<rparr>,
      objects = [symbol_token ''x'', whitespace_token, punctuation_token ''='',
                 whitespace_token, integer_token ''1'', eof_token],
      token_list = [0, 1, 2, 3, 4, 5], current_indent = 0, token = Some 5\<rparr>) \<and>
   last (print_tokens
     \<lparr>source_stream = \<lparr>chars = [], eofbit = True\<rparr>,
      objects = [symbol_token ''x'', whitespace_token, punctuation_token ''='',
                 whitespace_token, integer_token ''1'', eof_token],
      token_list = [0, 1, 2, 3, 4, 5], current_indent = 0, token = Some 5\<rparr>) = eof_token \<and>
   count_list (print_tokens
     \<lparr>source_stream = \<lparr>chars = [], eofbit = True\<rparr>,
      objects = [symbol_token ''x'', whitespace_token, punctuation_token ''='',
                 whitespace_token, integer_token ''1'', eof_token],
      token_list = [0, 1, 2, 3, 4, 5], current_indent = 0, token = Some 5\<rparr>) eof_token = 1"
proof -
  have run: "parse_tokens None (fresh ''x = 1'') = Some (Inr
     \<lparr>source_stream = \<lparr>chars = [], eofbit = True\<rparr>,
      objects = [symbol_token ''x'', whitespace_token, punctuation_token ''='',
                 whitespace_token, integer_token ''1'', eof_token],
      token_list = [0, 1, 2, 3, 4, 5], current_indent = 0, token = Some 5\<rparr>)"
    by (simp add: scan_eval)
  from C4_exactly_one_eof_token_at_the_end [OF run] run show ?thesis by simp
qed

end
